theory Spec2Isabelle
  imports Main "HOL-Library.Sublist"
begin

section \<open>Python string operations used by the agent\<close>

text \<open>
  The agent is Python; its texts are \<open>str\<close> values. They are modelled as \<^typ>\<open>string\<close>,
  one \<^typ>\<open>char\<close> per code point, so the model covers texts whose code points are below 256.
\<close>

definition startswith :: "string \<Rightarrow> string \<Rightarrow> bool" where
  \<comment> \<open>\<open>s.startswith(p)\<close>\<close>
  "startswith s p = (take (length p) s = p)"

definition endswith :: "string \<Rightarrow> string \<Rightarrow> bool" where
  \<comment> \<open>\<open>s.endswith(p)\<close>\<close>
  "endswith s p = (length p \<le> length s \<and> drop (length s - length p) s = p)"

fun contains :: "string \<Rightarrow> string \<Rightarrow> bool" where
  \<comment> \<open>\<open>p in s\<close>: \<open>p\<close> occurs in \<open>s\<close> as a contiguous run\<close>
  "contains [] p = (p = [])"
| "contains (c # cs) p = (startswith (c # cs) p \<or> contains cs p)"

definition is_space :: "char \<Rightarrow> bool" where
  \<comment> \<open>\<open>str.isspace\<close> on the code points below 256: tab, line feed, vertical tab, form feed,
      carriage return, the four separators 28 to 31, space, next line (133), no-break space (160)\<close>
  "is_space c = (c \<in> {CHR 0x09, CHR 0x0A, CHR 0x0B, CHR 0x0C, CHR 0x0D, CHR 0x1C, CHR 0x1D,
                        CHR 0x1E, CHR 0x1F, CHR 0x20, CHR 0x85, CHR 0xA0})"

definition lstrip :: "string \<Rightarrow> string" where
  "lstrip s = dropWhile is_space s"

definition rstrip :: "string \<Rightarrow> string" where
  "rstrip s = rev (dropWhile is_space (rev s))"

definition strip :: "string \<Rightarrow> string" where
  \<comment> \<open>\<open>s.strip()\<close>\<close>
  "strip s = lstrip (rstrip s)"

fun after_first :: "string \<Rightarrow> string \<Rightarrow> string" where
  \<comment> \<open>\<open>s.split(m, 1)[1]\<close>, the text after the first occurrence of \<open>m\<close>; the source calls it
      only where \<open>m in s\<close> holds\<close>
  "after_first [] m = []"
| "after_first (c # cs) m =
     (if startswith (c # cs) m then drop (length m) (c # cs) else after_first cs m)"

fun before_first :: "string \<Rightarrow> string \<Rightarrow> string" where
  \<comment> \<open>\<open>s.split(m, 1)[0]\<close>, the text before the first occurrence of \<open>m\<close> (all of \<open>s\<close>
      when there is none)\<close>
  "before_first [] m = []"
| "before_first (c # cs) m =
     (if startswith (c # cs) m then [] else c # before_first cs m)"

section \<open>Outcome classification (udp\_qa\_agent.py, lines 260 to 264)\<close>

text \<open>
  \<^verbatim>\<open>
  passed = False
  if return_code == 0 and ("OK" in test_stderr and "FAIL" not in test_stderr
                           and "ERROR" not in test_stderr):
      passed = True
  elif "FAIL" in test_stderr or "ERROR" in test_stderr:
      passed = False
  \<close>
\<close>

datatype verdict = Pass | Fail

definition passed_of :: "int \<Rightarrow> string \<Rightarrow> bool" where
  "passed_of return_code test_stderr =
     (if return_code = 0 \<and> (contains test_stderr ''OK'' \<and> \<not> contains test_stderr ''FAIL''
                             \<and> \<not> contains test_stderr ''ERROR'')
      then True
      else if contains test_stderr ''FAIL'' \<or> contains test_stderr ''ERROR'' then False
      else False)"

definition classify :: "int \<Rightarrow> string \<Rightarrow> verdict" where
  "classify return_code test_stderr = (if passed_of return_code test_stderr then Pass else Fail)"

section \<open>Service catalog parsing (udp\_qa\_agent.py, lines 123 to 154)\<close>

definition is_linebreak :: "char \<Rightarrow> bool" where
  \<comment> \<open>the line boundaries of \<open>str.splitlines\<close> below 256: line feed, vertical tab, form feed,
      carriage return, the separators 28 to 30, next line (133)\<close>
  "is_linebreak c = (c \<in> {CHR 0x0A, CHR 0x0B, CHR 0x0C, CHR 0x0D, CHR 0x1C, CHR 0x1D, CHR 0x1E,
                            CHR 0x85})"

fun splitlines_from :: "string \<Rightarrow> string \<Rightarrow> string list" where
  \<comment> \<open>the first argument is the line read so far; a carriage return followed by a line feed is
      one boundary; a boundary at the very end opens no further line\<close>
  "splitlines_from cur [] = (if cur = [] then [] else [cur])"
| "splitlines_from cur [c] = (if is_linebreak c then [cur] else [cur @ [c]])"
| "splitlines_from cur (c # d # cs) =
     (if c = CHR 0x0D \<and> d = CHR 0x0A then cur # splitlines_from [] cs
      else if is_linebreak c then cur # splitlines_from [] (d # cs)
      else splitlines_from (cur @ [c]) (d # cs))"

definition splitlines :: "string \<Rightarrow> string list" where
  \<comment> \<open>\<open>text.splitlines()\<close>\<close>
  "splitlines text = splitlines_from [] text"

definition is_digit :: "char \<Rightarrow> bool" where
  "is_digit c = (c \<in> set ''0123456789'')"

definition digit_value :: "char \<Rightarrow> nat" where
  "digit_value c = of_char c - 48"

fun parse_digits :: "nat \<Rightarrow> string \<Rightarrow> nat option" where
  \<comment> \<open>decimal digits, a single underscore allowed between two digits\<close>
  "parse_digits acc [] = Some acc"
| "parse_digits acc [c] = (if is_digit c then Some (10 * acc + digit_value c) else None)"
| "parse_digits acc (c # d # cs) =
     (if is_digit c then parse_digits (10 * acc + digit_value c) (d # cs)
      else if c = CHR ''_'' \<and> is_digit d then parse_digits (10 * acc + digit_value d) cs
      else None)"

definition py_int :: "string \<Rightarrow> int option" where
  \<comment> \<open>\<open>int(s)\<close> in base 10, \<open>None\<close> for \<open>ValueError\<close>: surrounding whitespace is ignored, one
      sign is allowed, then at least one digit. The interpreter's limit on the number of
      digits of one literal is not modelled.\<close>
  "py_int s =
     (let t = strip s;
          negative = (t \<noteq> [] \<and> hd t = CHR ''-'');
          body = (if t \<noteq> [] \<and> (hd t = CHR ''-'' \<or> hd t = CHR ''+'') then tl t else t)
      in if body = [] then None
         else if \<not> is_digit (hd body) then None
         else (case parse_digits 0 body of
                 None \<Rightarrow> None
               | Some n \<Rightarrow> Some (if negative then - int n else int n)))"

datatype port_value = PortAbsent | PortNone | PortInt int
  \<comment> \<open>the key \<open>"port"\<close> of a service dict: not set, set to \<open>None\<close>, or set to an integer\<close>

record service_info =
  name :: string
  port :: port_value
  functionality :: "string option"

definition is_name_line :: "string \<Rightarrow> bool" where
  "is_name_line line = startswith line ''Service Name:''"

definition new_service :: "string \<Rightarrow> service_info" where
  \<comment> \<open>\<open>{"name": line.split(":", 1)[1].strip()}\<close>\<close>
  "new_service line =
     \<lparr>name = strip (after_first line '':''), port = PortAbsent, functionality = None\<rparr>"

definition parse_port :: "string \<Rightarrow> port_value" where
  \<comment> \<open>lines 130 to 134: the \<open>ValueError\<close> of \<open>int\<close> is caught and the port set to \<open>None\<close>\<close>
  "parse_port line =
     (case py_int (strip (after_first line '':'')) of Some n \<Rightarrow> PortInt n | None \<Rightarrow> PortNone)"

fun parse_lines ::
  "string list \<Rightarrow> service_info list \<Rightarrow> service_info option
     \<Rightarrow> service_info list \<times> service_info option" where
  \<comment> \<open>the loop of lines 125 to 136 over \<open>services_to_test\<close> and \<open>current_service\<close>; the empty
      dict \<open>{}\<close>, which is falsy, is \<open>None\<close>\<close>
  "parse_lines [] services_to_test current_service = (services_to_test, current_service)"
| "parse_lines (line # rest) services_to_test current_service =
     (if startswith line ''Service Name:'' then
        parse_lines rest
          (case current_service of None \<Rightarrow> services_to_test
           | Some c \<Rightarrow> services_to_test @ [c])
          (Some (new_service line))
      else if startswith line ''Port:'' \<and> current_service \<noteq> None then
        parse_lines rest services_to_test
          (map_option (\<lambda>c. c\<lparr>port := parse_port line\<rparr>) current_service)
      else if startswith line ''Functionality Summary:'' \<and> current_service \<noteq> None then
        parse_lines rest services_to_test
          (map_option (\<lambda>c. c\<lparr>functionality := Some (strip (after_first line '':''))\<rparr>)
             current_service)
      else parse_lines rest services_to_test current_service)"

definition add_last_service :: "service_info list \<times> service_info option \<Rightarrow> service_info list" where
  \<comment> \<open>line 137: the last buffered service is added when its port is set and is not \<open>None\<close>\<close>
  "add_last_service r =
     (case r of (services_to_test, current_service) \<Rightarrow>
        (case current_service of
           None \<Rightarrow> services_to_test
         | Some c \<Rightarrow>
             (case port c of
                PortInt n \<Rightarrow> services_to_test @ [c]
              | PortNone \<Rightarrow> services_to_test
              | PortAbsent \<Rightarrow> services_to_test)))"

definition parse_services :: "string \<Rightarrow> service_info list" where
  "parse_services identified_services_text =
     add_last_service (parse_lines (splitlines identified_services_text) [] None)"

definition has_port :: "service_info \<Rightarrow> bool" where
  \<comment> \<open>lines 149 and 152: \<open>port = service_info.get("port")\<close>, and the service is skipped
      when \<open>not port\<close>, that is when the port is absent, \<open>None\<close> or 0\<close>
  "has_port service =
     (case port service of PortInt n \<Rightarrow> n \<noteq> 0 | PortNone \<Rightarrow> False | PortAbsent \<Rightarrow> False)"

text \<open>
  \<^verbatim>\<open>str.lower\<close> on the characters with a code below 256: the letters A to Z and the capital
  letters of Latin-1 (codes 192 to 222 without the multiplication sign 215) move up by 32.
\<close>

definition lower_char :: "char \<Rightarrow> char" where
  "lower_char c =
     (let n = of_char c :: nat
      in if (65 \<le> n \<and> n \<le> 90) \<or> (192 \<le> n \<and> n \<le> 222 \<and> n \<noteq> 215)
         then char_of (n + 32) else c)"

definition lower :: "string \<Rightarrow> string" where
  "lower s = map lower_char s"

definition services_for_generation :: "string option \<Rightarrow> service_info list" where
  \<comment> \<open>the services for which phase 2 goes on to request a mock and a test, in the order of the
      loop of line 147. The argument is the answer of the backend, \<open>None\<close> when the call
      failed. Line 115 returns early when the answer is \<open>None\<close>, empty, or contains
      \<open>no clear services can be identified\<close> in any mix of upper and lower case; line 140
      returns early on an empty parse\<close>
  "services_for_generation identified_services_text =
     (case identified_services_text of
        None \<Rightarrow> []
      | Some text \<Rightarrow>
          if text = [] \<or> contains (lower text) ''no clear services can be identified'' then []
          else (let services_to_test = parse_services text
                in if services_to_test = [] then [] else filter has_port services_to_test))"

text \<open>
  The record blocks of a catalog, as the loop of lines 125 to 136 reads them: a block opens at a
  name line and runs up to the next name line (a blank line does not close it); lines before the
  first name line are in no block.
  The descriptor of a block takes its name from the opening line and lets each later port or
  functionality line of the block overwrite the field.
\<close>

function record_blocks :: "string list \<Rightarrow> string list list" where
  "record_blocks [] = []"
| "record_blocks (l # ls) =
     (if is_name_line l
      then (l # takeWhile (\<lambda>x. \<not> is_name_line x) ls)
             # record_blocks (dropWhile (\<lambda>x. \<not> is_name_line x) ls)
      else record_blocks ls)"
  by pat_completeness auto
termination
  by (relation "measure length") (auto simp: less_Suc_eq_le length_dropWhile_le)

definition apply_field :: "string \<Rightarrow> service_info \<Rightarrow> service_info" where
  "apply_field line c =
     (if startswith line ''Port:'' then c\<lparr>port := parse_port line\<rparr>
      else if startswith line ''Functionality Summary:''
      then c\<lparr>functionality := Some (strip (after_first line '':''))\<rparr>
      else c)"

fun descriptor_of_block :: "string list \<Rightarrow> service_info" where
  "descriptor_of_block [] = \<lparr>name = [], port = PortAbsent, functionality = None\<rparr>"
| "descriptor_of_block (l # body) = fold apply_field body (new_service l)"

section \<open>Cleanup of backend responses (agent\_utils.py, lines 117 to 123)\<close>


section \<open>The test runner (agent\_utils.py, lines 177 to 199)\<close>

text \<open>What \<^verbatim>\<open>subprocess.run\<close> does is a parameter: it completes with the captured output and
  the return code of the child, or it raises.\<close>

datatype run_exception = FileNotFoundError | TimeoutExpired | OtherRunException string

datatype run_behaviour =
    Completes string string int
  | Raises run_exception

text \<open>\<^verbatim>\<open>str\<close> of an integer, as the f-string of line 196 formats the timeout.\<close>

definition digit_char :: "nat \<Rightarrow> char" where
  "digit_char d = ''0123456789'' ! d"

fun str_nat :: "nat \<Rightarrow> string" where
  "str_nat n = (if n < 10 then [digit_char n] else str_nat (n div 10) @ [digit_char (n mod 10)])"

declare str_nat.simps [simp del]

definition str_int :: "int \<Rightarrow> string" where
  "str_int i = (if i < 0 then CHR ''-'' # str_nat (nat (- i)) else str_nat (nat i))"

text \<open>The result is the triple \<^verbatim>\<open>(stdout, stderr, returncode)\<close>; \<^term>\<open>OtherRunException e\<close>
  carries \<^verbatim>\<open>str(e)\<close>. The left summand is an exception that leaves the function.\<close>

definition run_script_and_get_output ::
  "string \<Rightarrow> string list option \<Rightarrow> string option \<Rightarrow> int \<Rightarrow> run_behaviour
     \<Rightarrow> run_exception + string \<times> string \<times> int" where
  "run_script_and_get_output script_path args cwd timeout run =
     (case run of
        Completes out err returncode \<Rightarrow> Inr (out, err, returncode)
      | Raises FileNotFoundError \<Rightarrow>
          Inr ([], ''Python interpreter or script '' @ script_path @ '' not found.'', 1)
      | Raises TimeoutExpired \<Rightarrow>
          Inr ([], ''Script execution timed out after '' @ str_int timeout @ '' seconds.'', 1)
      | Raises (OtherRunException e) \<Rightarrow> Inr ([], e, 1))"

section \<open>Iterative testing and refinement (udp\_qa\_agent.py, lines 197 to 360)\<close>

text \<open>The exceptions that the code of this phase can raise by itself: \<^verbatim>\<open>NameError\<close> for a name
  that is not defined, \<^verbatim>\<open>TypeError\<close> for \<^verbatim>\<open>len(None)\<close>, \<^verbatim>\<open>UnboundLocalError\<close> for a local
  variable read before its first assignment, and any exception of the backend call.\<close>

datatype py_exception = NameError | TypeError | UnboundLocalError | OtherException string

definition MAX_REFINEMENT_RETRIES :: nat where
  "MAX_REFINEMENT_RETRIES = 3"

type_synonym prompt = "int \<times> string list"

definition truncated :: "nat \<Rightarrow> string \<Rightarrow> string" where
  "truncated max_len s = (if length s > max_len then take max_len s else s)"

definition get_udp_fix_failure_prompt ::
  "int \<Rightarrow> string \<Rightarrow> string option \<Rightarrow> string option \<Rightarrow> string \<Rightarrow> string \<Rightarrow> string
     \<Rightarrow> py_exception + prompt" where
  "get_udp_fix_failure_prompt port_number qa_snippet mock_code test_code test_stdout test_stderr
       mock_logs =
     (case mock_code of
        None \<Rightarrow> Inl TypeError
      | Some m \<Rightarrow>
          (case test_code of
             None \<Rightarrow> Inl TypeError
           | Some t \<Rightarrow>
               Inr (port_number,
                    [truncated 2000 qa_snippet, truncated 2000 m, truncated 2000 t,
                     truncated (2000 div 2) test_stdout, truncated (2000 div 2) test_stderr,
                     truncated (2000 div 2) mock_logs])))"

definition get_udp_edge_case_generation_prompt ::
  "int \<Rightarrow> string \<Rightarrow> string option \<Rightarrow> string option \<Rightarrow> py_exception + prompt" where
  "get_udp_edge_case_generation_prompt port_number qa_snippet mock_code test_code =
     (case mock_code of
        None \<Rightarrow> Inl TypeError
      | Some m \<Rightarrow>
          (case test_code of
             None \<Rightarrow> Inl TypeError
           | Some t \<Rightarrow> Inl NameError))"

datatype llm_result = LlmRaises | LlmNone | LlmText string

datatype event = StartMock | RunTest | Classify bool | AskEdgeCases | AskFix
  | SaveMock string | SaveTest string | Caught py_exception | StopMock

record asset =
  service_name :: string
  asset_port :: int
  mock_file :: string
  test_file :: string
  original_qa_snippet :: string

record attempt_world =
  mock_starts :: bool
  test_result :: "string \<times> string \<times> int"
  edge_backend :: "prompt \<Rightarrow> llm_result"
  fix_backend :: "prompt \<Rightarrow> llm_result"

record asset_world =
  mock_source :: "string option"
  test_source :: "string option"
  attempts :: "nat \<Rightarrow> attempt_world"

record phase_state =
  all_tests_passed_overall :: bool
  passed :: "bool option"

record locals =
  current_mock_code :: "string option"
  current_test_code :: "string option"

datatype break_site = MockStartFailed | TestsPassed | NoFixSuggestion | NoCodeUpdates
  | UnexpectedError

datatype body_end = Raised py_exception | Break break_site | Fallthrough

definition apply_fix :: "string \<Rightarrow> locals \<Rightarrow> locals \<times> event list \<times> bool" where
  "apply_fix fix_suggestion l =
     (let new_mock_code_marker = ''Updated Mock Code:'';
          new_test_code_marker = ''Updated Test Script Code:'';
          has_mock = contains fix_suggestion new_mock_code_marker;
          has_test = contains fix_suggestion new_test_code_marker;
          potential_new_mock = after_first fix_suggestion new_mock_code_marker;
          new_mock = strip (if contains potential_new_mock new_test_code_marker
                            then before_first potential_new_mock new_test_code_marker
                            else potential_new_mock);
          potential_new_test = after_first fix_suggestion new_test_code_marker;
          new_test = strip (if contains potential_new_test new_mock_code_marker
                            then before_first potential_new_test new_mock_code_marker
                            else potential_new_test);
          l1 = (if has_mock then l\<lparr>current_mock_code := Some new_mock\<rparr> else l);
          l2 = (if has_test then l1\<lparr>current_test_code := Some new_test\<rparr> else l1)
      in (l2,
          (if has_mock then [SaveMock new_mock] else []) @
          (if has_test then [SaveTest new_test] else []),
          \<not> (has_mock \<or> has_test)))"

definition try_body ::
  "nat \<Rightarrow> asset \<Rightarrow> attempt_world \<Rightarrow> locals \<Rightarrow> phase_state
     \<Rightarrow> body_end \<times> bool \<times> locals \<times> phase_state \<times> event list" where
  "try_body attempt a w l s =
     (if \<not> mock_starts w then
        (Break MockStartFailed, False, l, s\<lparr>all_tests_passed_overall := False\<rparr>, [StartMock])
      else
        (case test_result w of (test_stdout, test_stderr, return_code) \<Rightarrow>
           (let verdict = passed_of return_code test_stderr;
                s1 = s\<lparr>passed := Some verdict\<rparr>;
                ev = [StartMock, RunTest, Classify verdict]
            in if verdict then
                 (case get_udp_edge_case_generation_prompt (asset_port a) (original_qa_snippet a)
                         (current_mock_code l) (current_test_code l) of
                    Inl e \<Rightarrow> (Raised e, True, l, s1, ev)
                  | Inr edge_case_prompt \<Rightarrow>
                      (case edge_backend w edge_case_prompt of
                         LlmRaises \<Rightarrow> (Raised (OtherException []), True, l, s1, ev @ [AskEdgeCases])
                       | LlmNone \<Rightarrow> (Break TestsPassed, True, l, s1, ev @ [AskEdgeCases])
                       | LlmText edge_case_suggestions \<Rightarrow>
                           (Break TestsPassed, True, l, s1, ev @ [AskEdgeCases])))
               else if attempt < MAX_REFINEMENT_RETRIES then
                 (let s2 = s1\<lparr>all_tests_passed_overall := False\<rparr> in
                  case get_udp_fix_failure_prompt (asset_port a) (original_qa_snippet a)
                         (current_mock_code l) (current_test_code l) test_stdout test_stderr
                         ''Mock logs not captured in this version.'' of
                    Inl e \<Rightarrow> (Raised e, True, l, s2, ev)
                  | Inr fix_prompt \<Rightarrow>
                      (case fix_backend w fix_prompt of
                         LlmRaises \<Rightarrow> (Raised (OtherException []), True, l, s2, ev @ [AskFix])
                       | LlmNone \<Rightarrow> (Break NoFixSuggestion, True, l, s2, ev @ [AskFix])
                       | LlmText fix_suggestion \<Rightarrow>
                           if fix_suggestion = [] then
                             (Break NoFixSuggestion, True, l, s2, ev @ [AskFix])
                           else
                             (case apply_fix fix_suggestion l of (l', saves, no_updates) \<Rightarrow>
                                (if no_updates then Break NoCodeUpdates else Fallthrough,
                                 True, l', s2, ev @ [AskFix] @ saves))))
               else if attempt = MAX_REFINEMENT_RETRIES then
                 (Fallthrough, True, l, s1\<lparr>all_tests_passed_overall := False\<rparr>, ev)
               else (Fallthrough, True, l, s1, ev))))"

datatype control = Leave break_site | Next

definition attempt_step ::
  "nat \<Rightarrow> asset \<Rightarrow> attempt_world \<Rightarrow> locals \<Rightarrow> phase_state
     \<Rightarrow> control \<times> locals \<times> phase_state \<times> event list" where
  "attempt_step attempt a w l s =
     (case try_body attempt a w l s of (r, mock_process, l', s', ev) \<Rightarrow>
        (let finally = (if mock_process then [StopMock] else [])
         in case r of
              Raised e \<Rightarrow>
                (Leave UnexpectedError, l', s'\<lparr>all_tests_passed_overall := False\<rparr>,
                 ev @ [Caught e] @ finally)
            | Break b \<Rightarrow> (Leave b, l', s', ev @ finally)
            | Fallthrough \<Rightarrow> (Next, l', s', ev @ finally)))"

datatype loop_end = Broke break_site | RangeExhausted

type_synonym asset_run = "loop_end \<times> event list list"

fun attempts_loop ::
  "nat list \<Rightarrow> asset \<Rightarrow> (nat \<Rightarrow> attempt_world) \<Rightarrow> locals \<Rightarrow> phase_state
     \<Rightarrow> asset_run \<times> phase_state" where
  "attempts_loop [] a w l s = ((RangeExhausted, []), s)"
| "attempts_loop (attempt # rest) a w l s =
     (case attempt_step attempt a (w attempt) l s of
        (Leave b, l', s', ev) \<Rightarrow> ((Broke b, [ev]), s')
      | (Next, l', s', ev) \<Rightarrow>
          (case attempts_loop rest a w l' s' of ((e, traces), s'') \<Rightarrow> ((e, ev # traces), s'')))"

definition refine_asset :: "asset \<Rightarrow> asset_world \<Rightarrow> phase_state \<Rightarrow> asset_run \<times> phase_state" where
  "refine_asset a aw s =
     attempts_loop [0..<MAX_REFINEMENT_RETRIES + 1] a (attempts aw)
       \<lparr>current_mock_code = mock_source aw, current_test_code = test_source aw\<rparr> s"

fun test_assets ::
  "(asset \<times> asset_world) list \<Rightarrow> phase_state \<Rightarrow> asset_run list
     \<Rightarrow> py_exception \<times> asset_run list + phase_state \<times> asset_run list" where
  "test_assets [] s runs = Inr (s, runs)"
| "test_assets ((a, aw) # rest) s runs =
     (case refine_asset a aw s of (run, s') \<Rightarrow>
        if \<not> all_tests_passed_overall s' then
          (case passed s' of
             None \<Rightarrow> Inl (UnboundLocalError, runs @ [run])
           | Some p \<Rightarrow> test_assets rest s' (runs @ [run]))
        else test_assets rest s' (runs @ [run]))"

datatype phase_report = NoAssets | Overall bool "asset_run list"

definition phase_3_iterative_testing ::
  "(asset \<times> asset_world) list \<Rightarrow> py_exception \<times> asset_run list + phase_report" where
  "phase_3_iterative_testing generated_assets =
     (if generated_assets = [] then Inr NoAssets
      else (case test_assets generated_assets
                   \<lparr>all_tests_passed_overall = True, passed = None\<rparr> [] of
              Inl x \<Rightarrow> Inl x
            | Inr (s, runs) \<Rightarrow> Inr (Overall (all_tests_passed_overall s) runs)))"

datatype outcome = Passed | Exhausted | Aborted

definition outcome_of :: "asset_run \<Rightarrow> outcome" where
  "outcome_of run =
     (case run of (e, traces) \<Rightarrow>
        if traces \<noteq> [] \<and> Classify True \<in> set (last traces) then Passed
        else (case e of RangeExhausted \<Rightarrow> Exhausted | Broke b \<Rightarrow> Aborted))"

text \<open>The verdict that lines 260 to 264 compute from the result of the test run.\<close>

definition verdict_in :: "attempt_world \<Rightarrow> bool" where
  "verdict_in w = passed_of (snd (snd (test_result w))) (fst (snd (test_result w)))"

section \<open>Stopping a background process (agent\_utils.py, lines 161 to 174)\<close>

text \<open>A process handle as \<^verbatim>\<open>subprocess.Popen\<close> presents it. Time is counted in seconds.
  \<^term>\<open>exit_after\<close> is the time after which the process has exited as things stand: \<^term>\<open>None\<close>
  when it runs on, \<^term>\<open>Some 0\<close> when it has exited. \<^term>\<open>on_sigterm\<close> is what the process does
  with the terminate signal: \<^term>\<open>None\<close> when it traps and ignores it, \<^term>\<open>Some d\<close> when it exits
  \<^term>\<open>d\<close> seconds later. The kill signal cannot be trapped: the process is gone
  \<^term>\<open>on_sigkill\<close> seconds after it. \<^term>\<open>signals\<close> records the signals sent to the process.\<close>

datatype signal = SIGTERM | SIGKILL

record process =
  exit_after :: "nat option"
  on_sigterm :: "nat option"
  on_sigkill :: nat
  signals :: "signal list"

text \<open>\<^verbatim>\<open>process.poll() is None\<close>\<close>

definition running :: "process \<Rightarrow> bool" where
  "running p = (exit_after p \<noteq> Some 0)"

definition sooner :: "nat \<Rightarrow> process \<Rightarrow> process" where
  "sooner d p =
     p\<lparr>exit_after := (case exit_after p of None \<Rightarrow> Some d | Some r \<Rightarrow> Some (min r d))\<rparr>"

text \<open>\<^verbatim>\<open>terminate\<close> and \<^verbatim>\<open>kill\<close> send nothing to a process that has exited.\<close>

definition terminate :: "process \<Rightarrow> process" where
  "terminate p =
     (if running p then
        (case on_sigterm p of None \<Rightarrow> p | Some d \<Rightarrow> sooner d p)\<lparr>signals := signals p @ [SIGTERM]\<rparr>
      else p)"

definition kill :: "process \<Rightarrow> process" where
  "kill p =
     (if running p then (sooner (on_sigkill p) p)\<lparr>signals := signals p @ [SIGKILL]\<rparr> else p)"

text \<open>\<^verbatim>\<open>wait(timeout=t)\<close> returns the process and the time spent; the left summand is
  \<^verbatim>\<open>TimeoutExpired\<close>, raised after \<^term>\<open>t\<close> seconds.\<close>

definition wait_timeout :: "nat \<Rightarrow> process \<Rightarrow> process \<times> nat + process \<times> nat" where
  "wait_timeout t p =
     (case exit_after p of
        None \<Rightarrow> Inl (p, t)
      | Some r \<Rightarrow> if r \<le> t then Inr (p\<lparr>exit_after := Some 0\<rparr>, r)
                  else Inl (p\<lparr>exit_after := Some (r - t)\<rparr>, t))"

text \<open>\<^verbatim>\<open>wait()\<close> without a timeout does not return while the process runs on: \<^term>\<open>None\<close>.\<close>

definition wait :: "process \<Rightarrow> (process \<times> nat) option" where
  "wait p = (case exit_after p of None \<Rightarrow> None | Some r \<Rightarrow> Some (p\<lparr>exit_after := Some 0\<rparr>, r))"

text \<open>The handle may be \<^verbatim>\<open>None\<close>. The result is the handle after the call and the time the call
  took, or \<^term>\<open>None\<close> when the call does not return.\<close>

definition stop_background_process :: "process option \<Rightarrow> (process option \<times> nat) option" where
  "stop_background_process process =
     (case process of
        None \<Rightarrow> Some (None, 0)
      | Some p \<Rightarrow>
          if running p then
            (case wait_timeout 5 (terminate p) of
               Inr (p', t) \<Rightarrow> Some (Some p', t)
             | Inl (p', t) \<Rightarrow>
                 (case wait (kill p') of
                    None \<Rightarrow> None
                  | Some (p'', t') \<Rightarrow> Some (Some p'', t + t')))
          else Some (Some p, 0))"

section \<open>Example inputs\<close>

definition three_blocks :: string where
  "three_blocks =
     ''Service Name: Test Service 1\<newline>Port: 12345\<newline>Functionality Summary: one\<newline>\<newline>'' @
     ''Service Name: Invalid Service\<newline>Port: not a port\<newline>Functionality Summary: three\<newline>\<newline>'' @
     ''Service Name: Test Service 2\<newline>Port: 54321\<newline>Functionality Summary: two''"

definition an_asset :: asset where
  "an_asset = \<lparr>service_name = ''auth'', asset_port = 5005, mock_file = ''mocks/mock_auth_port5005.py'',
     test_file = ''tests/test_auth_port5005.py'', original_qa_snippet = ''Service: auth''\<rparr>"

definition world_of :: "bool \<Rightarrow> string \<times> string \<times> int \<Rightarrow> llm_result \<Rightarrow> attempt_world" where
  "world_of starts result fix =
     \<lparr>mock_starts = starts, test_result = result, edge_backend = (\<lambda>p. LlmNone),
      fix_backend = (\<lambda>p. fix)\<rparr>"

definition never_starts :: asset_world where
  "never_starts = \<lparr>mock_source = Some ''import socket'', test_source = Some ''import unittest'',
     attempts = (\<lambda>n. world_of False ([], [], 0) LlmNone)\<rparr>"

definition passes_at_once :: asset_world where
  "passes_at_once = \<lparr>mock_source = Some ''import socket'', test_source = Some ''import unittest'',
     attempts = (\<lambda>n. world_of True ([], ''OK'', 0) LlmNone)\<rparr>"

definition passes_after_fix :: asset_world where
  "passes_after_fix = \<lparr>mock_source = Some ''import socket'', test_source = Some ''import unittest'',
     attempts = (\<lambda>n. if n = 0 then world_of True ([], ''FAILED (failures=1)'', 1)
                              (LlmText ''Updated Mock Code: pass'')
                       else world_of True ([], ''OK'', 0) LlmNone)\<rparr>"

definition always_fails :: asset_world where
  "always_fails = \<lparr>mock_source = Some ''import socket'', test_source = Some ''import unittest'',
     attempts = (\<lambda>n. world_of True ([], ''FAILED (failures=1)'', 1)
                              (LlmText ''Updated Mock Code: pass''))\<rparr>"

section \<open>Facts about the string operations\<close>

lemmas string_eval = startswith_def endswith_def is_space_def is_linebreak_def is_digit_def
  digit_value_def strip_def lstrip_def rstrip_def splitlines_def

lemmas lower_eval = lower_def lower_char_def char_of_def bit_Suc_0_iff

lemmas parse_eval = parse_services_def add_last_service_def new_service_def parse_port_def
  py_int_def has_port_def services_for_generation_def is_name_line_def apply_field_def


lemma startswith_iff: "startswith s p \<longleftrightarrow> (\<exists>r. s = p @ r)"
proof
  assume "startswith s p"
  then have "s = p @ drop (length p) s"
    unfolding startswith_def by (metis append_take_drop_id)
  then show "\<exists>r. s = p @ r" ..
next
  assume "\<exists>r. s = p @ r"
  then show "startswith s p" by (auto simp: startswith_def)
qed

lemma contains_iff: "contains s p \<longleftrightarrow> (\<exists>a b. s = a @ p @ b)"
proof (induction s)
  case Nil
  then show ?case by auto
next
  case (Cons c cs)
  show ?case
  proof
    assume "contains (c # cs) p"
    then consider "startswith (c # cs) p" | "contains cs p" by auto
    then show "\<exists>a b. c # cs = a @ p @ b"
    proof cases
      case 1
      then obtain r where "c # cs = p @ r" using startswith_iff by blast
      then have "c # cs = [] @ p @ r" by simp
      then show ?thesis by blast
    next
      case 2
      then obtain a b where "cs = a @ p @ b" using Cons.IH by blast
      then have "c # cs = (c # a) @ p @ b" by simp
      then show ?thesis by blast
    qed
  next
    assume "\<exists>a b. c # cs = a @ p @ b"
    then obtain a b where ab: "c # cs = a @ p @ b" by blast
    show "contains (c # cs) p"
    proof (cases a)
      case Nil
      with ab have "startswith (c # cs) p" using startswith_iff by auto
      then show ?thesis by simp
    next
      case (Cons x a')
      with ab have "cs = a' @ p @ b" by simp
      then have "contains cs p" using Cons.IH by blast
      then show ?thesis by simp
    qed
  qed
qed

section \<open>The verdict\<close>

text \<open>
  Claim C2. The verdict of a run is Pass exactly when the exit code is 0 and the captured
  stderr contains \<open>OK\<close> and contains neither \<open>FAIL\<close> nor \<open>ERROR\<close>; every other run is
  Fail. Exit code 0 with stderr \<open>Ran 3 tests in 0.01s\<close>, an empty line and \<open>OK\<close> is Pass, and
  exit code 1 with a stderr containing \<open>FAILED (failures=1)\<close> is Fail.
\<close>

theorem classify_pass_iff:
  "(classify return_code test_stderr = Pass \<longleftrightarrow>
      return_code = 0 \<and> contains test_stderr ''OK'' \<and> \<not> contains test_stderr ''FAIL''
        \<and> \<not> contains test_stderr ''ERROR'')
   \<and> (classify return_code test_stderr \<noteq> Pass \<longleftrightarrow> classify return_code test_stderr = Fail)
   \<and> classify 0 ''Ran 3 tests in 0.01s\<newline>\<newline>OK'' = Pass
   \<and> (contains test_stderr ''FAILED (failures=1)'' \<longrightarrow> classify 1 test_stderr = Fail)"
proof -
  have iff: "classify return_code test_stderr = Pass \<longleftrightarrow>
      return_code = 0 \<and> contains test_stderr ''OK'' \<and> \<not> contains test_stderr ''FAIL''
        \<and> \<not> contains test_stderr ''ERROR''"
    by (simp add: classify_def passed_of_def)
  have other: "classify return_code test_stderr \<noteq> Pass \<longleftrightarrow> classify return_code test_stderr = Fail"
    by (cases "classify return_code test_stderr") simp_all
  have ok: "classify 0 ''Ran 3 tests in 0.01s\<newline>\<newline>OK'' = Pass"
    by (simp add: classify_def passed_of_def startswith_def)
  have failed: "classify 1 test_stderr = Fail"
    by (simp add: classify_def passed_of_def)
  from iff other ok failed show ?thesis by blast
qed

theorem classify_pass_iff_witness:
  "contains ''Ran 3 tests in 0.01s\<newline>\<newline>FAILED (failures=1)'' ''FAILED (failures=1)''
   \<and> classify 1 ''Ran 3 tests in 0.01s\<newline>\<newline>FAILED (failures=1)'' = Fail
   \<and> classify 0 ''Ran 3 tests in 0.01s\<newline>\<newline>OK'' = Pass"
proof -
  have c: "contains ''Ran 3 tests in 0.01s\<newline>\<newline>FAILED (failures=1)'' ''FAILED (failures=1)''"
    by (simp add: startswith_def)
  with classify_pass_iff [of 1 "''Ran 3 tests in 0.01s\<newline>\<newline>FAILED (failures=1)''"]
  show ?thesis by blast
qed

section \<open>The catalog\<close>

lemma parse_lines_no_name:
  "\<forall>l \<in> set pre. \<not> is_name_line l \<Longrightarrow> parse_lines (pre @ rest) acc None = parse_lines rest acc None"
  by (induction pre) (simp_all add: is_name_line_def)

lemma parse_lines_blocks:
  "parse_lines ls acc cur = (acc', cur') \<Longrightarrow>
   acc' @ (case cur' of None \<Rightarrow> [] | Some c \<Rightarrow> [c]) =
   acc @ (case cur of
            None \<Rightarrow> map descriptor_of_block (record_blocks ls)
          | Some c \<Rightarrow> fold apply_field (takeWhile (\<lambda>x. \<not> is_name_line x) ls) c
                       # map descriptor_of_block (record_blocks (dropWhile (\<lambda>x. \<not> is_name_line x) ls)))"
proof (induction ls arbitrary: acc cur)
  case Nil
  then show ?case by (auto split: option.splits)
next
  case (Cons l ls)
  show ?case
  proof (cases "is_name_line l")
    case True
    with Cons.prems have
      "parse_lines ls (case cur of None \<Rightarrow> acc | Some c \<Rightarrow> acc @ [c]) (Some (new_service l)) = (acc', cur')"
      by (simp add: is_name_line_def)
    from Cons.IH [OF this] True show ?thesis
      by (simp split: option.splits)
  next
    case False
    show ?thesis
    proof (cases cur)
      case None
      with False Cons.prems have "parse_lines ls acc None = (acc', cur')"
        by (simp add: is_name_line_def)
      from Cons.IH [OF this] False None show ?thesis by simp
    next
      case (Some c)
      with False Cons.prems have "parse_lines ls acc (Some (apply_field l c)) = (acc', cur')"
        by (auto simp: is_name_line_def apply_field_def split: if_splits)
      from Cons.IH [OF this] False Some show ?thesis by simp
    qed
  qed
qed

lemma filter_add_last_service:
  "filter has_port (add_last_service (acc, cur)) =
   filter has_port (acc @ (case cur of None \<Rightarrow> [] | Some c \<Rightarrow> [c]))"
  by (auto simp: add_last_service_def has_port_def split: option.splits port_value.splits)

lemma services_for_generation_blocks:
  "services_for_generation (Some text) =
     (if text = [] \<or> contains (lower text) ''no clear services can be identified'' then []
      else filter has_port (map descriptor_of_block (record_blocks (splitlines text))))"
proof -
  obtain acc cur where r: "parse_lines (splitlines text) [] None = (acc, cur)"
    by (cases "parse_lines (splitlines text) [] None")
  from parse_lines_blocks [OF r]
  have "acc @ (case cur of None \<Rightarrow> [] | Some c \<Rightarrow> [c]) =
        map descriptor_of_block (record_blocks (splitlines text))" by simp
  then have "filter has_port (parse_services text) =
        filter has_port (map descriptor_of_block (record_blocks (splitlines text)))"
    using filter_add_last_service [of acc cur] by (simp add: parse_services_def r)
  then show ?thesis
    by (auto simp: services_for_generation_def Let_def)
qed

lemma has_port_iff: "has_port s \<longleftrightarrow> (\<exists>n. port s = PortInt n \<and> n \<noteq> 0)"
  by (cases "port s") (simp_all add: has_port_def)

text \<open>
  Claim C6, as the code has it. Every service that passes the parse and the filter of line
  152, and so goes on to asset generation, has a port that parsed as an integer other than
  0 (the filter is \<open>not port\<close>, which lets a negative port through); a record whose port
  field is \<open>None\<close>, because it did not parse, is not among them; and the services appear in
  the order of their record blocks in the text. They are the descriptors of the record blocks
  with such a port, or none at all when the text is empty or says that no clear services can
  be identified, or when the backend gave no answer.
\<close>

theorem catalog_nonzero_ports_in_source_order:
  "(\<forall>s \<in> set (services_for_generation (Some text)). \<exists>n. port s = PortInt n \<and> n \<noteq> 0)
   \<and> (\<forall>s. port s = PortNone \<longrightarrow> s \<notin> set (services_for_generation (Some text)))
   \<and> subseq (services_for_generation (Some text))
         (map descriptor_of_block (record_blocks (splitlines text)))
   \<and> services_for_generation (Some text) =
       (if text = [] \<or> contains (lower text) ''no clear services can be identified'' then []
        else filter has_port (map descriptor_of_block (record_blocks (splitlines text))))
   \<and> services_for_generation None = []"
proof -
  let ?blocks = "map descriptor_of_block (record_blocks (splitlines text))"
  have eq: "services_for_generation (Some text) =
       (if text = [] \<or> contains (lower text) ''no clear services can be identified'' then []
        else filter has_port ?blocks)"
    by (rule services_for_generation_blocks)
  have valid: "\<forall>s \<in> set (services_for_generation (Some text)). \<exists>n. port s = PortInt n \<and> n \<noteq> 0"
    unfolding eq using has_port_iff by auto
  then have none: "\<forall>s. port s = PortNone \<longrightarrow> s \<notin> set (services_for_generation (Some text))"
    by fastforce
  have order: "subseq (services_for_generation (Some text)) ?blocks"
    unfolding eq by simp
  have "services_for_generation None = []"
    by (simp add: services_for_generation_def)
  with valid none order eq show ?thesis by blast
qed

lemma three_blocks_lines:
  "splitlines three_blocks =
    [''Service Name: Test Service 1'', ''Port: 12345'', ''Functionality Summary: one'', [],
     ''Service Name: Invalid Service'', ''Port: not a port'', ''Functionality Summary: three'', [],
     ''Service Name: Test Service 2'', ''Port: 54321'', ''Functionality Summary: two'']"
  by (simp add: three_blocks_def string_eval)

lemma three_blocks_answer:
  "\<not> (three_blocks = [] \<or> contains (lower three_blocks) ''no clear services can be identified'')"
  by (simp add: three_blocks_def lower_eval string_eval)

lemma three_blocks_services:
  "services_for_generation (Some three_blocks) =
     [\<lparr>name = ''Test Service 1'', port = PortInt 12345, functionality = Some ''one''\<rparr>,
      \<lparr>name = ''Test Service 2'', port = PortInt 54321, functionality = Some ''two''\<rparr>]"
proof -
  have "services_for_generation (Some three_blocks) =
      (let services_to_test = parse_services three_blocks
       in if services_to_test = [] then [] else filter has_port services_to_test)"
    using three_blocks_answer by (simp add: services_for_generation_def)
  then show ?thesis
    unfolding parse_services_def three_blocks_lines
    by (simp add: string_eval add_last_service_def new_service_def parse_port_def py_int_def
        has_port_def is_name_line_def apply_field_def)
qed

lemma three_blocks_names:
  "map name (map descriptor_of_block (record_blocks (splitlines three_blocks))) =
     [''Test Service 1'', ''Invalid Service'', ''Test Service 2'']"
  unfolding three_blocks_lines
  by (simp add: string_eval parse_eval)

theorem catalog_nonzero_ports_in_source_order_witness:
  "map name (map descriptor_of_block (record_blocks (splitlines three_blocks))) =
     [''Test Service 1'', ''Invalid Service'', ''Test Service 2'']
   \<and> map name (filter has_port (map descriptor_of_block (record_blocks (splitlines three_blocks)))) =
     [''Test Service 1'', ''Test Service 2'']
   \<and> map port (services_for_generation (Some three_blocks)) = [PortInt 12345, PortInt 54321]"
proof -
  from catalog_nonzero_ports_in_source_order [of three_blocks] three_blocks_answer
  have "filter has_port (map descriptor_of_block (record_blocks (splitlines three_blocks))) =
        services_for_generation (Some three_blocks)" by simp
  then have "map name (filter has_port
          (map descriptor_of_block (record_blocks (splitlines three_blocks)))) =
        [''Test Service 1'', ''Test Service 2'']"
    by (simp only: three_blocks_services) simp
  moreover have "map port (services_for_generation (Some three_blocks)) =
        [PortInt 12345, PortInt 54321]"
    by (simp only: three_blocks_services) simp
  ultimately show ?thesis
    using three_blocks_names by blast
qed

text \<open>
  An answer that holds a complete record and the words \<open>No Clear Services Can Be Identified\<close>
  sends no service on: line 115 returns before the parse.
\<close>

lemma no_clear_services_answer:
  "services_for_generation (Some (''Service Name: A\<newline>Port: 80\<newline>'' @
      ''Functionality Summary: No Clear Services Can Be Identified'')) = []"
  by (simp add: services_for_generation_def lower_eval string_eval)

text \<open>
  Claim C6 as it is written fails: a port line with a negative number parses, the service
  passes the filter and goes on to asset generation with a port that is not positive.
\<close>

theorem catalog_negative_port_counterexample:
  "services_for_generation (Some ''Service Name: A\<newline>Port: -5'') =
     [\<lparr>name = ''A'', port = PortInt (- 5), functionality = None\<rparr>]
   \<and> \<not> (0 :: int) < - 5"
  by (simp add: lower_eval string_eval parse_eval)

text \<open>
  Claim C10. Port lines and functionality lines before the first name line are discarded:
  while no name line has been read there is no buffered record, the lines before the first
  name line leave the parse as it started, and the result is that of the remaining lines
  alone. The parse is a total function: such lines raise nothing (a port line is not even
  handed to \<open>int\<close> there).
\<close>

theorem leading_field_lines_discarded:
  assumes "splitlines text = pre @ rest"
    and "\<forall>l \<in> set pre. startswith l ''Port:'' \<or> startswith l ''Functionality Summary:''
           \<or> \<not> startswith l ''Service Name:''"
  shows "parse_lines pre [] None = ([], None)
         \<and> parse_services text = add_last_service (parse_lines rest [] None)"
proof -
  have not_name: "\<not> is_name_line l" if "l \<in> set pre" for l
  proof -
    from assms(2) that consider "startswith l ''Port:''"
      | "startswith l ''Functionality Summary:''" | "\<not> startswith l ''Service Name:''"
      by blast
    then show ?thesis
    proof cases
      case 1
      then show ?thesis by (cases l) (auto simp: is_name_line_def startswith_def)
    next
      case 2
      then show ?thesis by (cases l) (auto simp: is_name_line_def startswith_def)
    next
      case 3
      then show ?thesis by (simp add: is_name_line_def)
    qed
  qed
  then have all: "\<forall>l \<in> set pre. \<not> is_name_line l" by blast
  from parse_lines_no_name [OF all, of "[]" "[]"]
  have "parse_lines pre [] None = ([], None)" by simp
  moreover from parse_lines_no_name [OF all, of rest "[]"]
  have "parse_services text = add_last_service (parse_lines rest [] None)"
    by (simp add: parse_services_def assms(1))
  ultimately show ?thesis by blast
qed

theorem leading_field_lines_discarded_witness:
  "splitlines ''Port: abc\<newline>Functionality Summary: x\<newline>Service Name: A\<newline>Port: 7'' =
     [''Port: abc'', ''Functionality Summary: x''] @ [''Service Name: A'', ''Port: 7'']
   \<and> startswith ''Port: abc'' ''Port:''
   \<and> startswith ''Functionality Summary: x'' ''Functionality Summary:''
   \<and> parse_lines [''Port: abc'', ''Functionality Summary: x''] [] None = ([], None)
   \<and> parse_services ''Port: abc\<newline>Functionality Summary: x\<newline>Service Name: A\<newline>Port: 7'' =
       [\<lparr>name = ''A'', port = PortInt 7, functionality = None\<rparr>]"
proof -
  have split: "splitlines ''Port: abc\<newline>Functionality Summary: x\<newline>Service Name: A\<newline>Port: 7'' =
     [''Port: abc'', ''Functionality Summary: x''] @ [''Service Name: A'', ''Port: 7'']"
    by (simp add: string_eval)
  have p1: "startswith ''Port: abc'' ''Port:''" by (simp add: string_eval)
  have p2: "startswith ''Functionality Summary: x'' ''Functionality Summary:''"
    by (simp add: string_eval)
  have rest: "add_last_service (parse_lines [''Service Name: A'', ''Port: 7''] [] None) =
       [\<lparr>name = ''A'', port = PortInt 7, functionality = None\<rparr>]"
    by (simp add: string_eval parse_eval)
  from leading_field_lines_discarded [OF split] p1 p2 rest split show ?thesis
    by simp
qed

section \<open>Fence stripping\<close>





lemma lstrip_nonspace: "s = [] \<or> \<not> is_space (hd s) \<Longrightarrow> lstrip s = s"
  by (cases s) (simp_all add: lstrip_def)











section \<open>The test runner's timeout contract\<close>

text \<open>Claim C5, as the code has it. Whatever the child process does, the test runner returns a
  triple of captured output, captured errors and return code, and no exception leaves it. When
  the child exceeds the timeout, the triple has empty output, the synthetic message
  \<^verbatim>\<open>Script execution timed out after N seconds.\<close> as errors, and the non-zero return code 1.
  The triple has no component that tells a timeout from a completed run.\<close>

theorem run_script_returns_triple:
  "(\<exists>out err rc. run_script_and_get_output script_path args cwd timeout run = Inr (out, err, rc))
   \<and> (\<exists>rc. run_script_and_get_output script_path args cwd timeout (Raises TimeoutExpired) =
             Inr ([], ''Script execution timed out after '' @ str_int timeout @ '' seconds.'', rc)
           \<and> rc \<noteq> 0)"
  by (simp add: run_script_and_get_output_def split: run_behaviour.splits run_exception.splits)

text \<open>A run that timed out and a run that completed with the same message on its error stream
  and return code 1 give the same result: no timed-out flag can be read off the result.\<close>

theorem timeout_result_not_flagged:
  "run_script_and_get_output ''test_a.py'' None (Some ''tests'') 60 (Raises TimeoutExpired) =
   run_script_and_get_output ''test_a.py'' None (Some ''tests'') 60
     (Completes [] ''Script execution timed out after 60 seconds.'' 1)
   \<and> Raises TimeoutExpired \<noteq> Completes [] ''Script execution timed out after 60 seconds.'' 1"
  by (simp add: run_script_and_get_output_def str_int_def str_nat.simps digit_char_def)

section \<open>One attempt and the refinement loop\<close>

lemma apply_fix_saves:
  "apply_fix fix l = (l', saves, b) \<Longrightarrow>
     StopMock \<notin> set saves \<and> RunTest \<notin> set saves \<and> Classify v \<notin> set saves"
  by (auto simp: apply_fix_def Let_def split: if_splits)

lemma try_body_not_started:
  "\<not> mock_starts w \<Longrightarrow>
   try_body attempt a w l s =
     (Break MockStartFailed, False, l, s\<lparr>all_tests_passed_overall := False\<rparr>, [StartMock])"
  by (simp add: try_body_def)

lemma try_body_started:
  assumes "mock_starts w" and "try_body attempt a w l s = (r, h, l', s', ev)"
  shows "h \<and> (\<exists>rest. ev = [StartMock, RunTest, Classify (verdict_in w)] @ rest
              \<and> StopMock \<notin> set rest \<and> RunTest \<notin> set rest \<and> (\<forall>v. Classify v \<notin> set rest))
         \<and> passed s' = Some (verdict_in w)
         \<and> (r = Fallthrough \<longrightarrow> \<not> verdict_in w)
         \<and> (verdict_in w \<longrightarrow> (\<exists>e. r = Raised e))"
proof -
  obtain out err rc where t: "test_result w = (out, err, rc)" by (cases "test_result w")
  show ?thesis
    using assms apply_fix_saves
    unfolding try_body_def t verdict_in_def
    by (fastforce simp: Let_def get_udp_edge_case_generation_prompt_def
        split: if_splits sum.splits llm_result.splits prod.splits option.splits)
qed

lemma attempt_step_not_started:
  "\<not> mock_starts w \<Longrightarrow>
   attempt_step attempt a w l s =
     (Leave MockStartFailed, l, s\<lparr>all_tests_passed_overall := False\<rparr>, [StartMock])"
  by (simp add: attempt_step_def try_body_not_started)

lemma attempt_step_started:
  assumes "mock_starts w" and "attempt_step attempt a w l s = (c, l', s', ev)"
  shows "\<exists>pre. ev = pre @ [StopMock] \<and> StopMock \<notin> set pre
           \<and> Classify (verdict_in w) \<in> set pre \<and> Classify (\<not> verdict_in w) \<notin> set pre
           \<and> length (filter (\<lambda>x. x = RunTest) pre) = 1
           \<and> (c = Next \<longrightarrow> \<not> verdict_in w)"
proof -
  obtain r h l0 s0 ev0 where tb: "try_body attempt a w l s = (r, h, l0, s0, ev0)"
    by (metis prod_cases5)
  from try_body_started [OF assms(1) tb] obtain rest where
    h: "h" and ev0: "ev0 = [StartMock, RunTest, Classify (verdict_in w)] @ rest"
    and rest: "StopMock \<notin> set rest" "RunTest \<notin> set rest" "\<forall>v. Classify v \<notin> set rest"
    and ft: "r = Fallthrough \<longrightarrow> \<not> verdict_in w"
    by blast
  have nr: "filter (\<lambda>x. x = RunTest) rest = []"
    using rest(2) by (auto simp: filter_empty_conv)
  show ?thesis
  proof (cases r)
    case (Raised e)
    with assms(2) tb h have "ev = (ev0 @ [Caught e]) @ [StopMock]"
      by (simp add: attempt_step_def)
    moreover from Raised assms(2) tb have "c \<noteq> Next" by (auto simp: attempt_step_def Let_def)
    ultimately show ?thesis using ev0 rest nr by auto
  next
    case (Break b)
    with assms(2) tb h have "ev = ev0 @ [StopMock]"
      by (simp add: attempt_step_def)
    moreover from Break assms(2) tb have "c \<noteq> Next" by (auto simp: attempt_step_def Let_def)
    ultimately show ?thesis using ev0 rest nr by auto
  next
    case Fallthrough
    with assms(2) tb h have "ev = ev0 @ [StopMock]"
      by (simp add: attempt_step_def)
    then show ?thesis using ev0 rest nr ft Fallthrough by auto
  qed
qed

lemma attempt_step_run_once:
  assumes "attempt_step attempt a w l s = (c, l', s', ev)"
  shows "length (filter (\<lambda>x. x = RunTest) ev) \<le> 1"
proof (cases "mock_starts w")
  case True
  from attempt_step_started [OF True assms] show ?thesis by auto
next
  case False
  with assms show ?thesis by (auto simp: attempt_step_not_started)
qed

lemma attempt_step_next:
  assumes "attempt_step attempt a w l s = (Next, l', s', ev)"
  shows "Classify True \<notin> set ev"
proof (cases "mock_starts w")
  case True
  from attempt_step_started [OF True assms] obtain pre where
    "ev = pre @ [StopMock]" "Classify (verdict_in w) \<in> set pre"
    "Classify (\<not> verdict_in w) \<notin> set pre" "\<not> verdict_in w"
    by auto
  then show ?thesis by auto
next
  case False
  with assms show ?thesis by (simp add: attempt_step_not_started)
qed

lemma attempts_loop_shape:
  "attempts_loop ks a w l s = ((e, traces), s') \<Longrightarrow>
     length traces \<le> length ks \<and> (ks \<noteq> [] \<longrightarrow> traces \<noteq> [])
     \<and> (e = RangeExhausted \<longrightarrow>
           length traces = length ks \<and> (\<forall>t \<in> set traces. Classify True \<notin> set t))
     \<and> (\<forall>t \<in> set traces. length (filter (\<lambda>x. x = RunTest) t) \<le> 1)"
proof (induction ks arbitrary: l s e traces s')
  case Nil
  then show ?case by auto
next
  case (Cons k ks)
  obtain c l1 s1 ev where st: "attempt_step k a (w k) l s = (c, l1, s1, ev)"
    by (metis prod_cases4)
  note once = attempt_step_run_once [OF st]
  show ?case
  proof (cases c)
    case (Leave b)
    with Cons.prems st have "e = Broke b" "traces = [ev]" by auto
    with once show ?thesis by auto
  next
    case Next
    obtain e2 tr2 s2 where rec: "attempts_loop ks a w l1 s1 = ((e2, tr2), s2)"
      by (metis prod.collapse)
    with Cons.prems st Next have eq: "e = e2" "traces = ev # tr2" by auto
    from st Next have "Classify True \<notin> set ev" using attempt_step_next by blast
    with Cons.IH [OF rec] eq once show ?thesis by auto
  qed
qed

lemma count_concat_le:
  "\<forall>t \<in> set ts. length (filter P t) \<le> 1 \<Longrightarrow> length (filter P (concat ts)) \<le> length ts"
  by (induction ts) auto

lemma retry_range: "[0..<MAX_REFINEMENT_RETRIES + 1] = [0, 1, 2, 3]"
  by (simp add: MAX_REFINEMENT_RETRIES_def upt_rec)

lemma outcome_cases: "outcome_of r \<in> {Passed, Exhausted, Aborted}"
  by (cases "outcome_of r") simp_all

text \<open>Claim C3. For every asset, whatever the mock, the test run and the backend do, the
  refinement loop makes at least one and at most \<^term>\<open>MAX_REFINEMENT_RETRIES + 1\<close>, that is four,
  attempts, runs the test script at most four times, and ends as passed, exhausted or aborted;
  when the range of attempts is used up, exactly four attempts were made and the asset is
  exhausted. The loop is a recursion over the list of attempt numbers, so it terminates.\<close>

theorem refinement_bounded:
  "case refine_asset a aw s of ((e, traces), s') \<Rightarrow>
     1 \<le> length traces \<and> length traces \<le> MAX_REFINEMENT_RETRIES + 1 \<and> length traces \<le> 4
     \<and> length (filter (\<lambda>x. x = RunTest) (concat traces)) \<le> 4
     \<and> outcome_of (e, traces) \<in> {Passed, Exhausted, Aborted}
     \<and> (e = RangeExhausted \<longrightarrow> length traces = 4 \<and> outcome_of (e, traces) = Exhausted)"
proof -
  obtain e traces s' where r: "refine_asset a aw s = ((e, traces), s')"
    by (metis prod.collapse)
  from r have loop: "attempts_loop [0, 1, 2, 3] a (attempts aw)
      \<lparr>current_mock_code = mock_source aw, current_test_code = test_source aw\<rparr> s = ((e, traces), s')"
    unfolding refine_asset_def retry_range .
  note sh = attempts_loop_shape [OF loop]
  from sh have n: "1 \<le> length traces" "length traces \<le> 4"
    by (auto simp: Suc_le_eq)
  from sh have "length (filter (\<lambda>x. x = RunTest) (concat traces)) \<le> length traces"
    using count_concat_le by blast
  with n have runs: "length (filter (\<lambda>x. x = RunTest) (concat traces)) \<le> 4" by simp
  have ex: "length traces = 4 \<and> outcome_of (e, traces) = Exhausted" if "e = RangeExhausted"
  proof -
    from sh that have a: "length traces = 4" "\<forall>t \<in> set traces. Classify True \<notin> set t" by auto
    then have "traces \<noteq> []" by auto
    with a have "Classify True \<notin> set (last traces)" by simp
    with a that show ?thesis by (simp add: outcome_of_def)
  qed
  from n runs ex outcome_cases [of "(e, traces)"] show ?thesis
    by (simp add: r MAX_REFINEMENT_RETRIES_def)
qed

section \<open>Example runs of the refinement loop\<close>

lemma refine_asset_unfold:
  "refine_asset a aw s =
     attempts_loop [0, 1, 2, 3] a (attempts aw)
       \<lparr>current_mock_code = mock_source aw, current_test_code = test_source aw\<rparr> s"
  unfolding refine_asset_def retry_range ..

lemmas loop_eval = refine_asset_unfold attempt_step_def
  try_body_def passed_of_def get_udp_edge_case_generation_prompt_def
  get_udp_fix_failure_prompt_def apply_fix_def truncated_def MAX_REFINEMENT_RETRIES_def
  world_of_def an_asset_def string_eval Let_def

lemma never_starts_run:
  "refine_asset an_asset never_starts s =
     ((Broke MockStartFailed, [[StartMock]]), s\<lparr>all_tests_passed_overall := False\<rparr>)"
  by (simp add: loop_eval never_starts_def)

lemma passes_at_once_run:
  "refine_asset an_asset passes_at_once s =
     ((Broke UnexpectedError, [[StartMock, RunTest, Classify True, Caught NameError, StopMock]]),
      s\<lparr>all_tests_passed_overall := False, passed := Some True\<rparr>)"
  by (simp add: loop_eval passes_at_once_def)

lemma passes_after_fix_run:
  "refine_asset an_asset passes_after_fix s =
     ((Broke UnexpectedError,
       [[StartMock, RunTest, Classify False, AskFix, SaveMock ''pass'', StopMock],
        [StartMock, RunTest, Classify True, Caught NameError, StopMock]]),
      s\<lparr>all_tests_passed_overall := False, passed := Some True\<rparr>)"
  by (simp add: loop_eval passes_after_fix_def)

lemma always_fails_run:
  "refine_asset an_asset always_fails s =
     ((RangeExhausted,
       [[StartMock, RunTest, Classify False, AskFix, SaveMock ''pass'', StopMock],
        [StartMock, RunTest, Classify False, AskFix, SaveMock ''pass'', StopMock],
        [StartMock, RunTest, Classify False, AskFix, SaveMock ''pass'', StopMock],
        [StartMock, RunTest, Classify False, StopMock]]),
      s\<lparr>all_tests_passed_overall := False, passed := Some False\<rparr>)"
  by (simp add: loop_eval always_fails_def)

theorem refinement_bounded_witness:
  "fst (fst (refine_asset an_asset always_fails
         \<lparr>all_tests_passed_overall = True, passed = None\<rparr>)) = RangeExhausted
   \<and> length (snd (fst (refine_asset an_asset always_fails
         \<lparr>all_tests_passed_overall = True, passed = None\<rparr>))) = 4
   \<and> outcome_of (fst (refine_asset an_asset always_fails
         \<lparr>all_tests_passed_overall = True, passed = None\<rparr>)) = Exhausted"
  using refinement_bounded [of an_asset always_fails
      "\<lparr>all_tests_passed_overall = True, passed = None\<rparr>"]
  by (simp add: always_fails_run)

section \<open>Release of the mock process\<close>

text \<open>Claim C4, as the code has it. In every attempt in which the mock process started, the
  process is stopped exactly once, as the last step of the attempt, after the result of the test
  run was classified; this holds on every way out of the attempt, and when the body of the
  attempt raises an exception, the exception is handled and the process is stopped after that.
  An attempt in which the mock process did not start stops nothing.\<close>

theorem handle_released_last:
  "case attempt_step attempt a w l s of (c, l', s', ev) \<Rightarrow>
     (if mock_starts w
      then (\<exists>pre v. ev = pre @ [StopMock] \<and> StopMock \<notin> set pre \<and> Classify v \<in> set pre)
      else StopMock \<notin> set ev)
     \<and> (\<forall>e. fst (try_body attempt a w l s) = Raised e \<longrightarrow>
            mock_starts w \<and> last ev = StopMock \<and> Caught e \<in> set ev)"
proof -
  obtain c l' s' ev where st: "attempt_step attempt a w l s = (c, l', s', ev)"
    by (metis prod_cases4)
  obtain r h l0 s0 ev0 where tb: "try_body attempt a w l s = (r, h, l0, s0, ev0)"
    by (metis prod_cases5)
  have shape: "if mock_starts w
      then (\<exists>pre v. ev = pre @ [StopMock] \<and> StopMock \<notin> set pre \<and> Classify v \<in> set pre)
      else StopMock \<notin> set ev"
  proof (cases "mock_starts w")
    case True
    from attempt_step_started [OF True st] obtain pre where
      p: "ev = pre @ [StopMock]" "StopMock \<notin> set pre" "Classify (verdict_in w) \<in> set pre"
      by blast
    then have "\<exists>pre v. ev = pre @ [StopMock] \<and> StopMock \<notin> set pre \<and> Classify v \<in> set pre"
      by blast
    with True show ?thesis by simp
  next
    case False
    from st have "ev = [StartMock]"
      by (simp add: attempt_step_not_started [OF False])
    with False show ?thesis by simp
  qed
  have unwind: "mock_starts w \<and> last ev = StopMock \<and> Caught e \<in> set ev"
    if raised: "fst (try_body attempt a w l s) = Raised e" for e
  proof -
    have m: "mock_starts w"
    proof (rule ccontr)
      assume "\<not> mock_starts w"
      from try_body_not_started [OF this, of attempt a l s] raised show False by simp
    qed
    from raised tb have r: "r = Raised e" by simp
    from try_body_started [OF m tb] have "h" by blast
    with tb st r have "ev = ev0 @ [Caught e] @ [StopMock]"
      by (simp add: attempt_step_def)
    with m show ?thesis by simp
  qed
  from shape unwind show ?thesis unfolding st by simp
qed

theorem handle_released_last_witness:
  "fst (try_body 0 an_asset (world_of True ([], ''OK'', 0) LlmNone)
         \<lparr>current_mock_code = Some ''m'', current_test_code = Some ''t''\<rparr>
         \<lparr>all_tests_passed_overall = True, passed = None\<rparr>) = Raised NameError
   \<and> last (snd (snd (snd (attempt_step 0 an_asset (world_of True ([], ''OK'', 0) LlmNone)
         \<lparr>current_mock_code = Some ''m'', current_test_code = Some ''t''\<rparr>
         \<lparr>all_tests_passed_overall = True, passed = None\<rparr>)))) = StopMock"
proof -
  have r: "fst (try_body 0 an_asset (world_of True ([], ''OK'', 0) LlmNone)
         \<lparr>current_mock_code = Some ''m'', current_test_code = Some ''t''\<rparr>
         \<lparr>all_tests_passed_overall = True, passed = None\<rparr>) = Raised NameError"
    by (simp add: loop_eval)
  from handle_released_last [where attempt = 0 and a = an_asset
      and w = "world_of True ([], ''OK'', 0) LlmNone"
      and l = "\<lparr>current_mock_code = Some ''m'', current_test_code = Some ''t''\<rparr>"
      and s = "\<lparr>all_tests_passed_overall = True, passed = None\<rparr>"] r
  show ?thesis by (auto split: prod.splits)
qed

text \<open>An attempt whose tests fail: the verdict is computed while the mock process is still
  running, and the process is stopped only at the end of the attempt.\<close>

theorem release_after_classification_counterexample:
  "snd (snd (snd (attempt_step 0 an_asset
       (world_of True ([], ''FAILED (failures=1)'', 1) (LlmText ''Updated Mock Code: pass''))
       \<lparr>current_mock_code = Some ''m'', current_test_code = Some ''t''\<rparr>
       \<lparr>all_tests_passed_overall = True, passed = None\<rparr>))) =
     [StartMock, RunTest, Classify False, AskFix, SaveMock ''pass'', StopMock]"
  by (simp add: loop_eval)

section \<open>Processing a list of assets\<close>

text \<open>When the mock process of the first asset does not start at the first attempt, the variable
  \<^verbatim>\<open>passed\<close> has not been assigned when line 353 reads it.\<close>

lemma first_asset_start_failure_raises:
  assumes "\<not> mock_starts (attempts aw 0)"
  shows "phase_3_iterative_testing ((a, aw) # rest) =
           Inl (UnboundLocalError, [(Broke MockStartFailed, [[StartMock]])])"
  using assms
  by (simp add: phase_3_iterative_testing_def refine_asset_unfold attempt_step_not_started)

text \<open>Claim C1 asks that every asset of a list is processed to its own outcome when an earlier
  asset aborts. On a list of two assets of which the first has a mock process that does not
  start, the phase ends with \<^verbatim>\<open>UnboundLocalError\<close> after the first asset, and the second asset is
  not processed at all; alone, the second asset is processed.\<close>

theorem later_assets_not_processed:
  "phase_3_iterative_testing [(an_asset, never_starts), (an_asset, passes_at_once)] =
     Inl (UnboundLocalError, [(Broke MockStartFailed, [[StartMock]])])
   \<and> phase_3_iterative_testing [(an_asset, passes_at_once)] =
     Inr (Overall False
       [(Broke UnexpectedError, [[StartMock, RunTest, Classify True, Caught NameError, StopMock]])])"
  by (simp add: phase_3_iterative_testing_def never_starts_run passes_at_once_run)

section \<open>The overall indicator\<close>

text \<open>The flag \<^verbatim>\<open>all_tests_passed_overall\<close> is never set back to true, a failed attempt clears it
  (lines 296 and 346), and an attempt whose tests pass raises \<^verbatim>\<open>NameError\<close> in
  \<^verbatim>\<open>get_udp_edge_case_generation_prompt\<close>, which the handler of line 348 answers by clearing
  the flag as well.\<close>

lemma try_body_flag:
  assumes "try_body attempt a w l s = (r, h, l', s', ev)"
  shows "(all_tests_passed_overall s' \<longrightarrow> all_tests_passed_overall s)
         \<and> (attempt < MAX_REFINEMENT_RETRIES \<longrightarrow> all_tests_passed_overall s' \<longrightarrow> (\<exists>e. r = Raised e))"
proof -
  obtain out err rc where t: "test_result w = (out, err, rc)" by (cases "test_result w")
  show ?thesis
    using assms unfolding try_body_def t
    by (auto simp: Let_def get_udp_edge_case_generation_prompt_def
        split: if_splits sum.splits llm_result.splits prod.splits option.splits)
qed

lemma attempt_step_flag:
  assumes "attempt_step attempt a w l s = (c, l', s', ev)"
  shows "(all_tests_passed_overall s' \<longrightarrow> all_tests_passed_overall s)
         \<and> (attempt < MAX_REFINEMENT_RETRIES \<longrightarrow> \<not> all_tests_passed_overall s')"
proof -
  obtain r h l0 s0 ev0 where tb: "try_body attempt a w l s = (r, h, l0, s0, ev0)"
    by (metis prod_cases5)
  from try_body_flag [OF tb] assms tb show ?thesis
    by (cases r) (auto simp: attempt_step_def Let_def)
qed

lemma attempts_loop_flag:
  "attempts_loop ks a w l s = (run, s') \<Longrightarrow>
     (all_tests_passed_overall s' \<longrightarrow> all_tests_passed_overall s)
     \<and> (ks \<noteq> [] \<and> hd ks < MAX_REFINEMENT_RETRIES \<longrightarrow> \<not> all_tests_passed_overall s')"
proof (induction ks arbitrary: l s run s')
  case Nil
  then show ?case by auto
next
  case (Cons k ks)
  obtain c l1 s1 ev where st: "attempt_step k a (w k) l s = (c, l1, s1, ev)"
    by (metis prod_cases4)
  note f = attempt_step_flag [OF st]
  show ?case
  proof (cases c)
    case (Leave b)
    with Cons.prems st have "s' = s1" by auto
    with f show ?thesis by auto
  next
    case Next
    obtain run2 s2 where rec: "attempts_loop ks a w l1 s1 = (run2, s2)"
      by (metis prod.collapse)
    with Cons.prems st Next have "s' = s2" by (auto split: prod.splits)
    with Cons.IH [OF rec] f show ?thesis by auto
  qed
qed

lemma refine_asset_clears_flag:
  "refine_asset a aw s = (run, s') \<Longrightarrow> \<not> all_tests_passed_overall s'"
  using attempts_loop_flag [of "[0, 1, 2, 3]" a "attempts aw"
      "\<lparr>current_mock_code = mock_source aw, current_test_code = test_source aw\<rparr>" s run s']
  by (simp add: refine_asset_unfold MAX_REFINEMENT_RETRIES_def)

lemma test_assets_flag:
  "test_assets assets s runs = Inr (s', runs') \<Longrightarrow>
     assets \<noteq> [] \<or> \<not> all_tests_passed_overall s \<Longrightarrow> \<not> all_tests_passed_overall s'"
proof (induction assets arbitrary: s runs)
  case Nil
  then show ?case by simp
next
  case (Cons x assets)
  obtain a aw where x: "x = (a, aw)" by (cases x)
  obtain run s1 where r: "refine_asset a aw s = (run, s1)" by (metis prod.collapse)
  from refine_asset_clears_flag [OF r] have c: "\<not> all_tests_passed_overall s1" .
  from Cons.prems(1) x r c have "test_assets assets s1 (runs @ [run]) = Inr (s', runs')"
    by (auto split: option.splits)
  from Cons.IH [OF this] c show ?case by simp
qed

lemma overall_indicator_never_true:
  "phase_3_iterative_testing generated_assets = Inr (Overall ok runs) \<Longrightarrow> \<not> ok"
  using test_assets_flag
  by (fastforce simp: phase_3_iterative_testing_def split: if_splits sum.splits prod.splits)

text \<open>Claim C7 asks that the overall indicator is true exactly when every asset passed. For one
  asset that fails its first attempt and passes its second, and for two assets that pass at
  their first attempt, every asset ends as passed and the phase reports failure.\<close>

theorem overall_false_though_all_passed:
  "phase_3_iterative_testing [(an_asset, passes_after_fix)] =
     Inr (Overall False
       [(Broke UnexpectedError,
         [[StartMock, RunTest, Classify False, AskFix, SaveMock ''pass'', StopMock],
          [StartMock, RunTest, Classify True, Caught NameError, StopMock]])])
   \<and> outcome_of (Broke UnexpectedError,
         [[StartMock, RunTest, Classify False, AskFix, SaveMock ''pass'', StopMock],
          [StartMock, RunTest, Classify True, Caught NameError, StopMock]]) = Passed
   \<and> phase_3_iterative_testing [(an_asset, passes_at_once), (an_asset, passes_at_once)] =
     Inr (Overall False
       [(Broke UnexpectedError, [[StartMock, RunTest, Classify True, Caught NameError, StopMock]]),
        (Broke UnexpectedError, [[StartMock, RunTest, Classify True, Caught NameError, StopMock]])])
   \<and> outcome_of (Broke UnexpectedError,
         [[StartMock, RunTest, Classify True, Caught NameError, StopMock]]) = Passed"
  by (simp add: phase_3_iterative_testing_def passes_after_fix_run passes_at_once_run
      outcome_of_def)

section \<open>Guaranteed stop\<close>

text \<open>Claim C9. For every process handle the stop operation returns, and after it the process
  is not running. The call takes at most the five seconds of the graceful wait plus the time
  the kill signal needs. A process that has exited is left as it is, at once and with no
  signal sent. A process that ignores the terminate signal and would run on is sent the
  terminate signal, waited for during five seconds, sent the kill signal and waited for until
  it is gone.\<close>

theorem stop_background_process_stops:
  "\<exists>p' t. stop_background_process (Some p) = Some (Some p', t)
      \<and> \<not> running p'
      \<and> t \<le> 5 + on_sigkill p
      \<and> (\<not> running p \<longrightarrow> p' = p \<and> t = 0)
      \<and> (running p \<and> on_sigterm p = None \<and> exit_after p = None \<longrightarrow>
           signals p' = signals p @ [SIGTERM, SIGKILL] \<and> t = 5 + on_sigkill p)"
  by (cases "exit_after p"; cases "on_sigterm p")
    (auto simp: stop_background_process_def running_def terminate_def kill_def sooner_def
      wait_timeout_def wait_def min_def split: if_splits)

theorem stop_background_process_stops_witness:
  "running \<lparr>exit_after = None, on_sigterm = None, on_sigkill = 1, signals = []\<rparr>
   \<and> stop_background_process
     (Some \<lparr>exit_after = None, on_sigterm = None, on_sigkill = 1, signals = []\<rparr>) =
   Some (Some \<lparr>exit_after = Some 0, on_sigterm = None, on_sigkill = 1,
               signals = [SIGTERM, SIGKILL]\<rparr>, 6)"
  using stop_background_process_stops
    [of "\<lparr>exit_after = None, on_sigterm = None, on_sigkill = 1, signals = []\<rparr>"]
  by (simp add: stop_background_process_def running_def terminate_def kill_def sooner_def
      wait_timeout_def wait_def)

end
